theory Spec2Isabelle
  imports Main "HOL-Library.AList"
begin

section \<open>Data model of the design automation client\<close>

text \<open>
  The embedding follows \<^verbatim>\<open>src/design-automation.js\<close>. Errors are values: an
  \<^verbatim>\<open>await\<close> that rejects and a \<^verbatim>\<open>throw\<close> both end the operation with
  \<open>Inl\<close> of the error. \<open>Thrown msg\<close> is \<^verbatim>\<open>throw new Error(msg)\<close>.
\<close>

datatype error = AuthenticationFailure | TransportFailure | Thrown string

record authentication =
  access_token :: string

type_synonym headers = "(string \<times> string) list"

text \<open>
  Input and output descriptor objects of \<^verbatim>\<open>createActivity\<close>: the code reads
  \<^verbatim>\<open>name\<close> and \<^verbatim>\<open>description\<close> of an input, and also
  \<^verbatim>\<open>localName\<close> of an output. An absent property is \<open>None\<close>.
\<close>

record descriptor =
  name :: string
  description :: "string option"
  localName :: "string option"

text \<open>An entry of \<^verbatim>\<open>config.parameters\<close>.\<close>

record parameter =
  verb :: string
  param_description :: "string option"
  param_localName :: "string option"

text \<open>
  \<^verbatim>\<open>commandLine\<close> is an array of strings in three builders and a plain string in
  the 3dsMax one.
\<close>

datatype command_line = CmdArray "string list" | CmdString string

text \<open>
  A property of a JavaScript object that the object may lack: \<open>Absent\<close> when the
  object has no such property, \<open>Present v\<close> when it has one with the value \<open>v\<close>.
\<close>

datatype 'a property = Absent | Present 'a

text \<open>
  The activity configuration object. \<open>cfg_id\<close> is its \<^verbatim>\<open>id\<close> property, whose
  value is a string or \<^verbatim>\<open>null\<close> (\<open>None\<close>). \<open>settings_script\<close> is
  \<^verbatim>\<open>config.settings.script\<close>, \<open>None\<close> when there is no \<^verbatim>\<open>settings\<close> block.
  \<open>parameters\<close> holds the own properties of the object the builders use as a
  dictionary from parameter names to entries, the entries of the descriptor.
  \<open>parameters_prototype\<close> is the prototype of that object when an assignment has
  replaced it, \<open>None\<close> while it is still \<^verbatim>\<open>Object.prototype\<close>.
\<close>

record activity_config =
  cfg_id :: "string option property"
  commandLine :: command_line
  parameters :: "string \<rightharpoonup> parameter"
  parameters_prototype :: "parameter option"
  cfg_description :: string
  cfg_engine :: string
  appbundles :: "string list"
  settings_script :: "string option"

text \<open>A page of a listing endpoint, as decoded from the response body.\<close>

record 'a response =
  data :: "'a list"
  paginationToken :: "string option"

section \<open>Collaborators: authentication provider and transport\<close>

text \<open>
  Every call that leaves the client is recorded, in order. The body of a
  \<^verbatim>\<open>post\<close> is the value of \<^verbatim>\<open>config\<close>, \<open>None\<close> when it is
  \<^verbatim>\<open>undefined\<close>.
\<close>

datatype event =
    Authenticate "string list"
  | Get string headers
  | Post string "activity_config option" headers

text \<open>
  The remote side is a script: the replies the authentication provider and the transport
  will give, in the order of the calls, and the calls made so far.
\<close>

record 'r world =
  auth_replies :: "(error + authentication) list"
  transport_replies :: "(error + 'r) list"
  trace :: "event list"

text \<open>
  Modelled from the spec: \<^verbatim>\<open>AuthenticationClient.authenticate\<close> of
  \<^verbatim>\<open>./authentication\<close> is not among the sources. It takes a scope list and gives a
  token with an access-token string or fails; here it gives the next scripted reply, and
  fails when the script has no reply left.
\<close>

definition authenticate :: "string list \<Rightarrow> 'r world \<Rightarrow> (error + authentication) \<times> 'r world" where
  "authenticate scopes w =
     (case auth_replies w of
        [] \<Rightarrow> (Inl AuthenticationFailure, w\<lparr>trace := trace w @ [Authenticate scopes]\<rparr>)
      | r # rs \<Rightarrow> (r, w\<lparr>auth_replies := rs, trace := trace w @ [Authenticate scopes]\<rparr>))"

text \<open>
  Modelled from the spec: \<^verbatim>\<open>get\<close> and \<^verbatim>\<open>post\<close> of \<^verbatim>\<open>./common\<close> are
  not among the sources. Each performs one request and gives the decoded body or fails;
  here each takes the next scripted reply, and fails when none is left.
\<close>

definition transport :: "event \<Rightarrow> 'r world \<Rightarrow> (error + 'r) \<times> 'r world" where
  "transport ev w =
     (case transport_replies w of
        [] \<Rightarrow> (Inl TransportFailure, w\<lparr>trace := trace w @ [ev]\<rparr>)
      | r # rs \<Rightarrow> (r, w\<lparr>transport_replies := rs, trace := trace w @ [ev]\<rparr>))"

definition get :: "string \<Rightarrow> headers \<Rightarrow> 'r world \<Rightarrow> (error + 'r) \<times> 'r world" where
  "get url hs w = transport (Get url hs) w"

definition post :: "string \<Rightarrow> activity_config option \<Rightarrow> headers \<Rightarrow> 'r world \<Rightarrow> (error + 'r) \<times> 'r world" where
  "post url body hs w = transport (Post url body hs) w"

section \<open>The client\<close>

definition RootPath :: string where
  "RootPath = ''/da/us-east/v3''"

definition ReadScopes :: "string list" where
  "ReadScopes = [''code:all'']"

text \<open>\<^verbatim>\<open>this.host\<close> and \<^verbatim>\<open>this.auth.client_id\<close>.\<close>

record client =
  host :: string
  client_id :: string

text \<open>
  The test JavaScript applies to an optional string in \<^verbatim>\<open>if (x)\<close> and
  \<^verbatim>\<open>while (x)\<close>: \<^verbatim>\<open>undefined\<close>, \<^verbatim>\<open>null\<close> and the empty string are false.
\<close>

definition truthy :: "string option \<Rightarrow> bool" where
  "truthy v = (case v of None \<Rightarrow> False | Some s \<Rightarrow> s \<noteq> [])"

subsection \<open>Paginated retrieval\<close>

text \<open>
  \<^verbatim>\<open>_pager\<close> is an asynchronous generator. Its state between two
  \<^verbatim>\<open>next()\<close> calls is the place where it is suspended and the local variables
  alive there: not started, suspended at a \<^verbatim>\<open>yield\<close> with \<^verbatim>\<open>headers\<close> and
  \<^verbatim>\<open>response\<close>, or finished. \<open>pager_next\<close> runs it to the next
  \<^verbatim>\<open>yield\<close>: \<open>Inr (Some page)\<close> is a yielded page, \<open>Inr None\<close> the end of
  the iteration, \<open>Inl e\<close> a rejection.
\<close>

datatype 'a pager_state = PStart | PYielded headers "'a response" | PDone

fun pager_next :: "client \<Rightarrow> string \<Rightarrow> string list \<Rightarrow> 'a pager_state \<Rightarrow> 'a response world
    \<Rightarrow> (error + 'a list option) \<times> 'a pager_state \<times> 'a response world" where
  "pager_next c endpoint scopes PStart w =
     (case authenticate scopes w of
        (Inl e, w1) \<Rightarrow> (Inl e, PDone, w1)
      | (Inr auth, w1) \<Rightarrow>
          (let hs = [(''Authorization'', ''Bearer '' @ access_token auth)] in
           case get (host c @ RootPath @ endpoint) hs w1 of
             (Inl e, w2) \<Rightarrow> (Inl e, PDone, w2)
           | (Inr resp, w2) \<Rightarrow> (Inr (Some (data resp)), PYielded hs resp, w2)))"
| "pager_next c endpoint scopes (PYielded hs resp) w =
     (if truthy (paginationToken resp) then
        (case authenticate scopes w of
           (Inl e, w1) \<Rightarrow> (Inl e, PDone, w1)
         | (Inr auth, w1) \<Rightarrow>
             (let hs' = AList.update ''Authorization'' (''Bearer '' @ access_token auth) hs in
              case get (host c @ RootPath @ endpoint @ ''?page='' @ the (paginationToken resp)) hs' w1 of
                (Inl e, w2) \<Rightarrow> (Inl e, PDone, w2)
              | (Inr resp', w2) \<Rightarrow> (Inr (Some (data resp')), PYielded hs' resp', w2)))
      else (Inr None, PDone, w))"
| "pager_next c endpoint scopes PDone w = (Inr None, PDone, w)"

text \<open>The loop of \<^verbatim>\<open>_collect\<close>, entered with the first response in hand.\<close>

function collect_loop :: "client \<Rightarrow> string \<Rightarrow> string list \<Rightarrow> headers \<Rightarrow> 'a response \<Rightarrow> 'a list
    \<Rightarrow> 'a response world \<Rightarrow> (error + 'a list) \<times> 'a response world" where
  "collect_loop c endpoint scopes hs resp results w =
     (if truthy (paginationToken resp) then
        (case authenticate scopes w of
           (Inl e, w1) \<Rightarrow> (Inl e, w1)
         | (Inr auth, w1) \<Rightarrow>
             (let hs' = AList.update ''Authorization'' (''Bearer '' @ access_token auth) hs in
              case get (host c @ RootPath @ endpoint @ ''?page='' @ the (paginationToken resp)) hs' w1 of
                (Inl e, w2) \<Rightarrow> (Inl e, w2)
              | (Inr resp', w2) \<Rightarrow> collect_loop c endpoint scopes hs' resp' (results @ data resp') w2))
      else (Inr results, w))"
  by pat_completeness auto

definition collect :: "client \<Rightarrow> string \<Rightarrow> string list \<Rightarrow> 'a response world
    \<Rightarrow> (error + 'a list) \<times> 'a response world" where
  "collect c endpoint scopes w =
     (case authenticate scopes w of
        (Inl e, w1) \<Rightarrow> (Inl e, w1)
      | (Inr auth, w1) \<Rightarrow>
          (let hs = [(''Authorization'', ''Bearer '' @ access_token auth)] in
           case get (host c @ RootPath @ endpoint) hs w1 of
             (Inl e, w2) \<Rightarrow> (Inl e, w2)
           | (Inr resp, w2) \<Rightarrow> collect_loop c endpoint scopes hs resp (data resp) w2))"


text \<open>
  What a consumer gets who drives the generator to its end and keeps every page, as
  \<^verbatim>\<open>for await (const page of client._pager(endpoint, scopes)) pages.push(page)\<close>
  does: the pages in the order they were yielded, or the rejection that ended the loop.
\<close>

function iterate_pages :: "client \<Rightarrow> string \<Rightarrow> string list \<Rightarrow> 'a pager_state \<Rightarrow> 'a response world
    \<Rightarrow> (error + 'a list list) \<times> 'a response world" where
  "iterate_pages c endpoint scopes st w =
     (case pager_next c endpoint scopes st w of
        (Inl e, st', w') \<Rightarrow> (Inl e, w')
      | (Inr None, st', w') \<Rightarrow> (Inr [], w')
      | (Inr (Some page), st', w') \<Rightarrow>
          (case iterate_pages c endpoint scopes st' w' of
             (Inl e, w'') \<Rightarrow> (Inl e, w'')
           | (Inr pages, w'') \<Rightarrow> (Inr (page # pages), w'')))"
  by pat_completeness auto

text \<open>
  The specification's reference for \<^verbatim>\<open>_collect\<close>: every page yielded by
  \<^verbatim>\<open>_pager\<close> on the same endpoint and scopes, concatenated by hand.
\<close>

definition concat_pager_pages :: "client \<Rightarrow> string \<Rightarrow> string list \<Rightarrow> 'a response world
    \<Rightarrow> (error + 'a list) \<times> 'a response world" where
  "concat_pager_pages c endpoint scopes w =
     (case iterate_pages c endpoint scopes PStart w of
        (Inl e, w') \<Rightarrow> (Inl e, w')
      | (Inr pages, w') \<Rightarrow> (Inr (concat pages), w'))"

subsection \<open>Activity configurations\<close>

text \<open>
  \<^verbatim>\<open>config.commandLine[0] += s\<close> on the one-element array the three array builders
  start from, and \<^verbatim>\<open>config.commandLine += s\<close> on the string of the 3dsMax builder.
  No builder applies either to a command line of another shape; such a command line is
  left as it is.
\<close>

fun append_first :: "string \<Rightarrow> command_line \<Rightarrow> command_line" where
  "append_first s (CmdArray (x # xs)) = CmdArray ((x @ s) # xs)"
| "append_first s cl = cl"

fun append_string :: "string \<Rightarrow> command_line \<Rightarrow> command_line" where
  "append_string s (CmdString x) = CmdString (x @ s)"
| "append_string s cl = cl"

text \<open>
  The entry registered for an input, \<^verbatim>\<open>{ verb: 'get' }\<close> with the description when
  there is one, and for an output, \<^verbatim>\<open>{ verb: 'put' }\<close> with the description and the
  local name when there are.
\<close>

definition input_parameter :: "descriptor \<Rightarrow> parameter" where
  "input_parameter input =
     \<lparr>verb = ''get'',
      param_description = (if truthy (description input) then description input else None),
      param_localName = None\<rparr>"

definition output_parameter :: "descriptor \<Rightarrow> parameter" where
  "output_parameter output =
     \<lparr>verb = ''put'',
      param_description = (if truthy (description output) then description output else None),
      param_localName = (if truthy (localName output) then localName output else None)\<rparr>"

text \<open>
  \<^verbatim>\<open>config.parameters[name] = entry\<close>, together with the assignments to
  \<^verbatim>\<open>config.parameters[name].description\<close> and \<^verbatim>\<open>.localName\<close> that complete the
  entry. \<^verbatim>\<open>config.parameters\<close> starts as the plain object \<^verbatim>\<open>{}\<close>, so for every
  name but one the assignment creates the own property of that name or replaces its
  value. The name \<^verbatim>\<open>__proto__\<close> is the accessor of \<^verbatim>\<open>Object.prototype\<close>: assigning
  an object to it makes that object the prototype of \<^verbatim>\<open>config.parameters\<close> and
  creates no own property, and the description and the local name then assigned through
  \<^verbatim>\<open>config.parameters['__proto__']\<close> land on that prototype.
\<close>

definition set_parameter :: "string \<Rightarrow> parameter \<Rightarrow> activity_config \<Rightarrow> activity_config" where
  "set_parameter n entry config =
     (if n = ''__proto__'' then config\<lparr>parameters_prototype := Some entry\<rparr>
      else config\<lparr>parameters := (parameters config)(n \<mapsto> entry)\<rparr>)"

text \<open>
  The loop \<^verbatim>\<open>for (const input of inputs)\<close> of the Inventor, Revit and AutoCAD
  builders, and the loop \<^verbatim>\<open>for (const output of outputs)\<close> of all four.
\<close>

fun add_inputs :: "descriptor list \<Rightarrow> activity_config \<Rightarrow> activity_config" where
  "add_inputs [] config = config"
| "add_inputs (input # rest) config =
     add_inputs rest
       (set_parameter (name input) (input_parameter input)
          (config\<lparr>commandLine := append_first ('' $(args['' @ name input @ ''].path)'') (commandLine config)\<rparr>))"

fun add_outputs :: "descriptor list \<Rightarrow> activity_config \<Rightarrow> activity_config" where
  "add_outputs [] config = config"
| "add_outputs (output # rest) config =
     add_outputs rest (set_parameter (name output) (output_parameter output) config)"

definition inventorActivityConfig :: "string option \<Rightarrow> string \<Rightarrow> string \<Rightarrow> string \<Rightarrow> string \<Rightarrow> string
    \<Rightarrow> descriptor list \<Rightarrow> descriptor list \<Rightarrow> activity_config" where
  "inventorActivityConfig activityId descr ownerId bundleName bundleAlias eng inputs outputs =
     (let config = \<lparr>cfg_id = Absent,
            commandLine = CmdArray [''$(engine.path)'' @ [CHR 0x5C] @ ''InventorCoreConsole.exe /al $(appbundles['' @ bundleName @ ''].path)''],
            parameters = Map.empty,
            parameters_prototype = None,
            cfg_description = descr,
            cfg_engine = eng,
            appbundles = [ownerId @ ''.'' @ bundleName @ ''+'' @ bundleAlias],
            settings_script = None\<rparr>;
          config = (if truthy activityId then config\<lparr>cfg_id := Present activityId\<rparr> else config);
          config = (if length inputs > 0
                    then add_inputs inputs (config\<lparr>commandLine := append_first '' /i'' (commandLine config)\<rparr>)
                    else config)
      in add_outputs outputs config)"

definition revitActivityConfig :: "string option \<Rightarrow> string \<Rightarrow> string \<Rightarrow> string \<Rightarrow> string \<Rightarrow> string
    \<Rightarrow> descriptor list \<Rightarrow> descriptor list \<Rightarrow> activity_config" where
  "revitActivityConfig activityId descr ownerId bundleName bundleAlias eng inputs outputs =
     (let config = \<lparr>cfg_id = Present activityId,
            commandLine = CmdArray [''$(engine.path)'' @ [CHR 0x5C] @ ''revitcoreconsole.exe /al $(appbundles['' @ bundleName @ ''].path)''],
            parameters = Map.empty,
            parameters_prototype = None,
            cfg_description = descr,
            cfg_engine = eng,
            appbundles = [ownerId @ ''.'' @ bundleName @ ''+'' @ bundleAlias],
            settings_script = None\<rparr>;
          config = (if length inputs > 0
                    then add_inputs inputs (config\<lparr>commandLine := append_first '' /i'' (commandLine config)\<rparr>)
                    else config)
      in add_outputs outputs config)"

definition autocadActivityConfig :: "string option \<Rightarrow> string \<Rightarrow> string \<Rightarrow> string \<Rightarrow> string \<Rightarrow> string
    \<Rightarrow> descriptor list \<Rightarrow> descriptor list \<Rightarrow> string option \<Rightarrow> activity_config" where
  "autocadActivityConfig activityId descr ownerId bundleName bundleAlias eng inputs outputs script =
     (let config = \<lparr>cfg_id = Present activityId,
            commandLine = CmdArray [''$(engine.path)'' @ [CHR 0x5C] @ ''accoreconsole.exe /al $(appbundles['' @ bundleName @ ''].path)''],
            parameters = Map.empty,
            parameters_prototype = None,
            cfg_description = descr,
            cfg_engine = eng,
            appbundles = [ownerId @ ''.'' @ bundleName @ ''+'' @ bundleAlias],
            settings_script = None\<rparr>;
          config = (if length inputs > 0
                    then add_inputs inputs (config\<lparr>commandLine := append_first '' /i'' (commandLine config)\<rparr>)
                    else config);
          config = add_outputs outputs config
      in if truthy script
         then config\<lparr>settings_script := script,
                     commandLine := append_first '' /s $(settings[script].path)'' (commandLine config)\<rparr>
         else config)"

text \<open>
  The 3dsMax builder (\<^verbatim>\<open>_3dsmaxActivityConfig\<close>) is the one that can throw: it
  refuses more than one input.
\<close>

definition js_3dsmaxActivityConfig :: "string option \<Rightarrow> string \<Rightarrow> string \<Rightarrow> string \<Rightarrow> string \<Rightarrow> string
    \<Rightarrow> descriptor list \<Rightarrow> descriptor list \<Rightarrow> string option \<Rightarrow> error + activity_config" where
  "js_3dsmaxActivityConfig activityId descr ownerId bundleName bundleAlias eng inputs outputs script =
     (let config = \<lparr>cfg_id = Present activityId,
            commandLine = CmdString (''$(engine.path)'' @ [CHR 0x5C] @ ''3dsmaxbatch.exe''),
            parameters = Map.empty,
            parameters_prototype = None,
            cfg_description = descr,
            cfg_engine = eng,
            appbundles = [ownerId @ ''.'' @ bundleName @ ''+'' @ bundleAlias],
            settings_script = None\<rparr>
      in if length inputs > 1 then Inl (Thrown ''3dsMax engine only supports single input file.'')
         else
           (let config = (if length inputs > 0
                  then (let input = inputs ! 0;
                            config = set_parameter (name input) (input_parameter input) config
                        in config\<lparr>commandLine := append_string ('' -sceneFile '' @ [CHR 0x22] @ ''$(args['' @ name input @ ''].path)'' @ [CHR 0x22])
                                                   (commandLine config)\<rparr>)
                  else config);
                config = add_outputs outputs config
            in Inr (if truthy script
                    then config\<lparr>settings_script := script,
                                commandLine := append_string ('' '' @ [CHR 0x22] @ ''$(settings[script].path)'' @ [CHR 0x22]) (commandLine config)\<rparr>
                    else config)))"

subsection \<open>Creating and updating activities\<close>

text \<open>
  \<^verbatim>\<open>DesignAutomationURI\<close> of \<^verbatim>\<open>./common\<close> is not among the sources; the two
  operations take what they use of it, the map from an engine identifier to its
  \<^verbatim>\<open>name\<close>, as the parameter \<open>uri_name\<close>. A \<^verbatim>\<open>switch\<close> that matches no
  case leaves \<^verbatim>\<open>config\<close> \<^verbatim>\<open>undefined\<close>, which is \<open>None\<close>.
\<close>

definition createActivity :: "(string \<Rightarrow> string) \<Rightarrow> client \<Rightarrow> string \<Rightarrow> string \<Rightarrow> string \<Rightarrow> string \<Rightarrow> string
    \<Rightarrow> descriptor list \<Rightarrow> descriptor list \<Rightarrow> string option \<Rightarrow> 'r world \<Rightarrow> (error + 'r) \<times> 'r world" where
  "createActivity uri_name c activity_id descr bundleName bundleAlias eng inputs outputs script w =
     (case authenticate ReadScopes w of
        (Inl e, w1) \<Rightarrow> (Inl e, w1)
      | (Inr auth, w1) \<Rightarrow>
          (let hs = [(''Authorization'', ''Bearer '' @ access_token auth)];
               engine_name = uri_name eng;
               config =
                 (if engine_name = ''AutoCAD'' then
                    Inr (Some (autocadActivityConfig (Some activity_id) descr (client_id c) bundleName bundleAlias eng inputs outputs script))
                  else if engine_name = ''3dsMax'' then
                    (case js_3dsmaxActivityConfig (Some activity_id) descr (client_id c) bundleName bundleAlias eng inputs outputs script of
                       Inl e \<Rightarrow> Inl e
                     | Inr cfg \<Rightarrow> Inr (Some cfg))
                  else if engine_name = ''Revit'' then
                    Inr (Some (revitActivityConfig (Some activity_id) descr (client_id c) bundleName bundleAlias eng inputs outputs))
                  else if engine_name = ''Inventor'' then
                    Inr (Some (inventorActivityConfig (Some activity_id) descr (client_id c) bundleName bundleAlias eng inputs outputs))
                  else Inr None)
           in case config of
                Inl e \<Rightarrow> (Inl e, w1)
              | Inr body \<Rightarrow> post (host c @ RootPath @ ''/activities'') body hs w1))"

definition updateActivity :: "(string \<Rightarrow> string) \<Rightarrow> client \<Rightarrow> string \<Rightarrow> string \<Rightarrow> string \<Rightarrow> string \<Rightarrow> string
    \<Rightarrow> descriptor list \<Rightarrow> descriptor list \<Rightarrow> string option \<Rightarrow> 'r world \<Rightarrow> (error + 'r) \<times> 'r world" where
  "updateActivity uri_name c activity_id descr bundleName bundleAlias eng inputs outputs script w =
     (case authenticate ReadScopes w of
        (Inl e, w1) \<Rightarrow> (Inl e, w1)
      | (Inr auth, w1) \<Rightarrow>
          (let hs = [(''Authorization'', ''Bearer '' @ access_token auth)];
               engine_name = uri_name eng;
               config =
                 (if engine_name = ''AutoCAD'' then
                    Inr (Some (autocadActivityConfig None descr (client_id c) bundleName bundleAlias eng inputs outputs script))
                  else if engine_name = ''3dsMax'' then
                    (case js_3dsmaxActivityConfig None descr (client_id c) bundleName bundleAlias eng inputs outputs script of
                       Inl e \<Rightarrow> Inl e
                     | Inr cfg \<Rightarrow> Inr (Some cfg))
                  else if engine_name = ''Revit'' then
                    Inr (Some (revitActivityConfig None descr (client_id c) bundleName bundleAlias eng inputs outputs))
                  else if engine_name = ''Inventor'' then
                    Inr (Some (inventorActivityConfig None descr (client_id c) bundleName bundleAlias eng inputs outputs))
                  else Inr None)
           in case config of
                Inl e \<Rightarrow> (Inl e, w1)
              | Inr body \<Rightarrow> post (host c @ RootPath @ ''/activities/'' @ activity_id @ ''/versions'') body hs w1))"

text \<open>
  Modelled from the spec: the name segment of an engine identifier. The identifier
  encodes a namespace-qualified name, \<^verbatim>\<open>vendor.Engine+version\<close>, and only the name
  segment, between the first dot and the plus sign after it, selects the variant.
\<close>

definition engine_name_segment :: "string \<Rightarrow> string" where
  "engine_name_segment uri =
     takeWhile (\<lambda>ch. ch \<noteq> CHR ''+'') (tl (dropWhile (\<lambda>ch. ch \<noteq> CHR ''.'') uri))"

section \<open>Reference notions of the specification\<close>

text \<open>
  The requests a run over a chain of pages is expected to make: before each page fetch one
  \<^verbatim>\<open>authenticate\<close> call with the given scopes, then the fetch, carrying the token
  just acquired. The first fetch goes to the endpoint itself, every later one to the
  endpoint with the previous page's token as the \<^verbatim>\<open>page\<close> query parameter.
\<close>

fun is_authenticate :: "event \<Rightarrow> bool" where
  "is_authenticate (Authenticate scopes) = True"
| "is_authenticate ev = False"

fun is_get :: "event \<Rightarrow> bool" where
  "is_get (Get url hs) = True"
| "is_get ev = False"

definition round_trip :: "string list \<Rightarrow> string \<Rightarrow> authentication \<Rightarrow> event list" where
  "round_trip scopes url auth =
     [Authenticate scopes, Get url [(''Authorization'', ''Bearer '' @ access_token auth)]]"

fun later_round_trips :: "client \<Rightarrow> string \<Rightarrow> string list \<Rightarrow> authentication list \<Rightarrow> 'a response list
    \<Rightarrow> event list" where
  "later_round_trips c endpoint scopes (auth # auths) (prev # prevs) =
     round_trip scopes (host c @ RootPath @ endpoint @ ''?page='' @ the (paginationToken prev)) auth
     @ later_round_trips c endpoint scopes auths prevs"
| "later_round_trips c endpoint scopes auths prevs = []"

fun round_trips :: "client \<Rightarrow> string \<Rightarrow> string list \<Rightarrow> authentication list \<Rightarrow> 'a response list
    \<Rightarrow> event list" where
  "round_trips c endpoint scopes (auth # auths) pages =
     round_trip scopes (host c @ RootPath @ endpoint) auth
     @ later_round_trips c endpoint scopes auths (butlast pages)"
| "round_trips c endpoint scopes [] pages = []"

text \<open>
  Command-line tokens written one after the other with a single space between them, and
  the placeholder of an input.
\<close>

fun join_tokens :: "string list \<Rightarrow> string" where
  "join_tokens [] = []"
| "join_tokens [t] = t"
| "join_tokens (t # ts) = t @ '' '' @ join_tokens ts"

definition arg_placeholder :: "descriptor \<Rightarrow> string" where
  "arg_placeholder input = ''$(args['' @ name input @ ''].path)''"

text \<open>
  The base executable invocation of the three builders whose command line is an array.
\<close>

definition autocad_base :: "string \<Rightarrow> string" where
  "autocad_base bundleName = ''$(engine.path)'' @ [CHR 0x5C] @ ''accoreconsole.exe /al $(appbundles['' @ bundleName @ ''].path)''"

definition revit_base :: "string \<Rightarrow> string" where
  "revit_base bundleName = ''$(engine.path)'' @ [CHR 0x5C] @ ''revitcoreconsole.exe /al $(appbundles['' @ bundleName @ ''].path)''"

definition inventor_base :: "string \<Rightarrow> string" where
  "inventor_base bundleName = ''$(engine.path)'' @ [CHR 0x5C] @ ''InventorCoreConsole.exe /al $(appbundles['' @ bundleName @ ''].path)''"


section \<open>Example inputs\<close>

definition example_client :: client where
  "example_client = \<lparr>host = ''https://developer.api.autodesk.com'', client_id = ''owner''\<rparr>"

definition token_of :: "string \<Rightarrow> authentication" where
  "token_of s = \<lparr>access_token = s\<rparr>"

definition page_of :: "'a list \<Rightarrow> string option \<Rightarrow> 'a response" where
  "page_of items tok = \<lparr>data = items, paginationToken = tok\<rparr>"

definition scripted :: "authentication list \<Rightarrow> 'r list \<Rightarrow> 'r world" where
  "scripted auths replies = \<lparr>auth_replies = map Inr auths, transport_replies = map Inr replies, trace = []\<rparr>"

definition literal_responses :: "int response list" where
  "literal_responses = [page_of [1, 2] None, page_of [3] (Some ''X''), page_of [4, 5] None]"

definition chained_responses :: "int response list" where
  "chained_responses = [page_of [1, 2] (Some ''W''), page_of [3] (Some ''X''), page_of [4, 5] None]"

definition three_tokens :: "authentication list" where
  "three_tokens = [token_of ''t1'', token_of ''t2'', token_of ''t3'']"

definition descriptor_named :: "string \<Rightarrow> descriptor" where
  "descriptor_named n = \<lparr>name = n, description = None, localName = None\<rparr>"

section \<open>Termination of the page loops\<close>

lemma authenticate_replies:
  "authenticate scopes w = (r, w1) \<Longrightarrow> transport_replies w1 = transport_replies w"
  by (auto simp: authenticate_def split: list.splits)

lemma get_consumes:
  "get url hs w = (Inr resp, w1) \<Longrightarrow> length (transport_replies w1) < length (transport_replies w)"
  by (auto simp: get_def transport_def split: list.splits)

termination collect_loop
proof (relation "measure (\<lambda>(c, endpoint, scopes, hs, resp, results, w). length (transport_replies w))")
  show "wf (measure (\<lambda>(c, endpoint, scopes, hs, resp, results, w). length (transport_replies w)))"
    by simp
next
  fix c :: client and endpoint :: string and scopes :: "string list" and hs :: headers
    and resp :: "'a response" and results :: "'a list" and w :: "'a response world"
    and x and auth and w1 and hs' and y and resp' and w2 and r
  assume a: "(x, w1) = authenticate scopes w"
    and g: "(y, w2) = get (host c @ RootPath @ endpoint @ ''?page='' @ the (paginationToken resp)) hs' w1"
    and y: "y = Inr resp'"
  from a have "transport_replies w1 = transport_replies w"
    using authenticate_replies [of scopes w x w1] by simp
  moreover from g y have "length (transport_replies w2) < length (transport_replies w1)"
    using get_consumes [of _ hs' w1 resp' w2] by simp
  ultimately show "((c, endpoint, scopes, hs', resp', results @ data resp', w2),
      (c, endpoint, scopes, hs, resp, results, w))
    \<in> measure (\<lambda>(c, endpoint, scopes, hs, resp, results, w). length (transport_replies w))"
    by simp
qed

lemma pager_next_consumes:
  "pager_next c endpoint scopes st w = (Inr (Some page), st', w')
   \<Longrightarrow> length (transport_replies w') < length (transport_replies w)"
  by (cases st)
     (auto simp: Let_def split: prod.splits sum.splits if_splits
           dest!: authenticate_replies get_consumes)

termination iterate_pages
proof (relation "measure (\<lambda>(c, endpoint, scopes, st, w). length (transport_replies w))")
  show "wf (measure (\<lambda>(c, endpoint, scopes, st, w). length (transport_replies w)))"
    by simp
next
  fix c :: client and endpoint :: string and scopes :: "string list" and st :: "'a pager_state"
    and w :: "'a response world" and x y and st' and w' and r and z and page
  assume "(x, y) = pager_next c endpoint scopes st w" "(st', w') = y" "x = Inr z" "z = Some page"
  then have "pager_next c endpoint scopes st w = (Inr (Some page), st', w')"
    by simp
  then show "((c, endpoint, scopes, st', w'), (c, endpoint, scopes, st, w))
      \<in> measure (\<lambda>(c, endpoint, scopes, st, w). length (transport_replies w))"
    using pager_next_consumes [of c endpoint scopes st w page st' w'] by simp
qed

declare collect_loop.simps [simp del] iterate_pages.simps [simp del]

section \<open>Collecting is concatenating the pages\<close>

lemma collect_loop_iterate_pages:
  "collect_loop c endpoint scopes hs resp results w =
     (case iterate_pages c endpoint scopes (PYielded hs resp) w of
        (Inl e, w') \<Rightarrow> (Inl e, w')
      | (Inr pages, w') \<Rightarrow> (Inr (results @ concat pages), w'))"
proof (induction c endpoint scopes hs resp results w rule: collect_loop.induct)
  case (1 c endpoint scopes hs resp results w)
  show ?case
  proof (cases "truthy (paginationToken resp)")
    case False
    then show ?thesis
      by (simp add: collect_loop.simps [of c endpoint scopes hs resp results w]
            iterate_pages.simps [of c endpoint scopes "PYielded hs resp" w])
  next
    case True
    obtain x w1 where a: "authenticate scopes w = (x, w1)"
      by (cases "authenticate scopes w")
    show ?thesis
    proof (cases x)
      case (Inl e)
      with True a show ?thesis
        by (simp add: collect_loop.simps [of c endpoint scopes hs resp results w]
              iterate_pages.simps [of c endpoint scopes "PYielded hs resp" w])
    next
      case (Inr auth)
      define hs' where "hs' = AList.update ''Authorization'' (''Bearer '' @ access_token auth) hs"
      obtain y w2 where g: "get (host c @ RootPath @ endpoint @ ''?page='' @ the (paginationToken resp)) hs' w1 = (y, w2)"
        by (cases "get (host c @ RootPath @ endpoint @ ''?page='' @ the (paginationToken resp)) hs' w1")
      show ?thesis
      proof (cases y)
        case (Inl e)
        with True a Inr g show ?thesis
          by (simp add: collect_loop.simps [of c endpoint scopes hs resp results w]
                iterate_pages.simps [of c endpoint scopes "PYielded hs resp" w] hs'_def)
      next
        case r: (Inr resp')
        have ih: "collect_loop c endpoint scopes hs' resp' (results @ data resp') w2 =
            (case iterate_pages c endpoint scopes (PYielded hs' resp') w2 of
               (Inl e, w') \<Rightarrow> (Inl e, w')
             | (Inr pages, w') \<Rightarrow> (Inr ((results @ data resp') @ concat pages), w'))"
          using "1.IH" [OF True a [symmetric] Inr hs'_def g [symmetric] r] .
        have "collect_loop c endpoint scopes hs resp results w =
            collect_loop c endpoint scopes hs' resp' (results @ data resp') w2"
          using True a Inr g r
          by (simp add: collect_loop.simps [of c endpoint scopes hs resp results w] hs'_def)
        moreover have "iterate_pages c endpoint scopes (PYielded hs resp) w =
            (case iterate_pages c endpoint scopes (PYielded hs' resp') w2 of
               (Inl e, w'') \<Rightarrow> (Inl e, w'')
             | (Inr pages, w'') \<Rightarrow> (Inr (data resp' # pages), w''))"
          using True a Inr g r
          by (simp add: iterate_pages.simps [of c endpoint scopes "PYielded hs resp" w] hs'_def)
        ultimately show ?thesis
          using ih by (simp split: prod.splits sum.splits)
      qed
    qed
  qed
qed

text \<open>
  Claim C1. For every endpoint, scope list and script of remote replies, \<^verbatim>\<open>_collect\<close>
  returns exactly the concatenation, in order, of the pages that \<^verbatim>\<open>_pager\<close>
  yields when it is driven to its end on the same endpoint, scopes and replies. The two
  also fail alike, with the same error at the same request, and make the same calls.
\<close>

theorem collect_equals_concatenated_pages:
  "collect c endpoint scopes w = concat_pager_pages c endpoint scopes w"
proof -
  obtain x w1 where a: "authenticate scopes w = (x, w1)"
    by (cases "authenticate scopes w")
  show ?thesis
  proof (cases x)
    case (Inl e)
    with a show ?thesis
      by (simp add: collect_def concat_pager_pages_def
            iterate_pages.simps [of c endpoint scopes PStart w])
  next
    case (Inr auth)
    define hs where "hs = [(''Authorization'', ''Bearer '' @ access_token auth)]"
    obtain y w2 where g: "get (host c @ RootPath @ endpoint) hs w1 = (y, w2)"
      by (cases "get (host c @ RootPath @ endpoint) hs w1")
    show ?thesis
    proof (cases y)
      case (Inl e)
      with a Inr g show ?thesis
        by (simp add: collect_def concat_pager_pages_def hs_def
              iterate_pages.simps [of c endpoint scopes PStart w])
    next
      case r: (Inr resp)
      with a Inr g show ?thesis
        by (simp add: collect_def concat_pager_pages_def hs_def
              iterate_pages.simps [of c endpoint scopes PStart w]
              collect_loop_iterate_pages [of c endpoint scopes _ resp "data resp" w2]
              split: prod.splits sum.splits)
    qed
  qed
qed

section \<open>The calls a run makes\<close>

lemmas world_ops = authenticate_def get_def transport_def scripted_def page_of_def token_of_def truthy_def

lemma authenticate_trace:
  "trace (snd (authenticate scopes w)) = trace w @ [Authenticate scopes]"
  by (simp add: authenticate_def split: list.splits)

lemma get_trace:
  "trace (snd (get url hs w)) = trace w @ [Get url hs]"
  by (simp add: get_def transport_def split: list.splits)

lemma collect_loop_trace:
  "\<exists>evs. trace (snd (collect_loop c endpoint scopes hs resp results w)) = trace w @ evs"
proof (induction c endpoint scopes hs resp results w rule: collect_loop.induct)
  case (1 c endpoint scopes hs resp results w)
  show ?case
  proof (cases "truthy (paginationToken resp)")
    case False
    then show ?thesis
      by (simp add: collect_loop.simps [of c endpoint scopes hs resp results w])
  next
    case True
    obtain x w1 where a: "authenticate scopes w = (x, w1)"
      by (cases "authenticate scopes w")
    then have t1: "trace w1 = trace w @ [Authenticate scopes]"
      using authenticate_trace [of scopes w] by simp
    show ?thesis
    proof (cases x)
      case (Inl e)
      with True a t1 show ?thesis
        by (simp add: collect_loop.simps [of c endpoint scopes hs resp results w])
    next
      case (Inr auth)
      define hs' where "hs' = AList.update ''Authorization'' (''Bearer '' @ access_token auth) hs"
      define url where "url = host c @ RootPath @ endpoint @ ''?page='' @ the (paginationToken resp)"
      obtain y w2 where g: "get url hs' w1 = (y, w2)"
        by (cases "get url hs' w1")
      then have t2: "trace w2 = trace w1 @ [Get url hs']"
        using get_trace [of url hs' w1] by simp
      show ?thesis
      proof (cases y)
        case (Inl e)
        with True a Inr g t1 t2 show ?thesis
          by (simp add: collect_loop.simps [of c endpoint scopes hs resp results w] hs'_def url_def)
      next
        case r: (Inr resp')
        from "1.IH" [OF True a [symmetric] Inr hs'_def g [unfolded url_def, symmetric] r]
        obtain evs where "trace (snd (collect_loop c endpoint scopes hs' resp' (results @ data resp') w2)) = trace w2 @ evs"
          by blast
        with True a Inr g r t1 t2 show ?thesis
          by (simp add: collect_loop.simps [of c endpoint scopes hs resp results w] hs'_def url_def)
      qed
    qed
  qed
qed

lemma collect_loop_continues:
  assumes "truthy (paginationToken resp)" and "auth_replies w = Inr auth # auths"
  shows "\<exists>evs. trace (snd (collect_loop c endpoint scopes hs resp results w)) =
           trace w @ [Authenticate scopes,
                      Get (host c @ RootPath @ endpoint @ ''?page='' @ the (paginationToken resp))
                          (AList.update ''Authorization'' (''Bearer '' @ access_token auth) hs)] @ evs"
proof -
  define hs' where "hs' = AList.update ''Authorization'' (''Bearer '' @ access_token auth) hs"
  define url where "url = host c @ RootPath @ endpoint @ ''?page='' @ the (paginationToken resp)"
  define w1 where "w1 = w\<lparr>auth_replies := auths, trace := trace w @ [Authenticate scopes]\<rparr>"
  have a: "authenticate scopes w = (Inr auth, w1)"
    using assms(2) by (simp add: authenticate_def w1_def)
  obtain y w2 where g: "get url hs' w1 = (y, w2)"
    by (cases "get url hs' w1")
  then have t2: "trace w2 = trace w @ [Authenticate scopes, Get url hs']"
    using get_trace [of url hs' w1] by (simp add: w1_def)
  show ?thesis
  proof (cases y)
    case (Inl e)
    with assms(1) a g t2 show ?thesis
      by (simp add: collect_loop.simps [of c endpoint scopes hs resp results w] hs'_def url_def)
  next
    case (Inr resp')
    obtain evs where "trace (snd (collect_loop c endpoint scopes hs' resp' (results @ data resp') w2)) = trace w2 @ evs"
      using collect_loop_trace by blast
    with assms(1) a g Inr t2 show ?thesis
      by (simp add: collect_loop.simps [of c endpoint scopes hs resp results w] hs'_def url_def)
  qed
qed

lemma collect_loop_stops_iff:
  "(collect_loop c endpoint scopes hs resp results w = (Inr results, w)) = (\<not> truthy (paginationToken resp))"
proof (cases "truthy (paginationToken resp)")
  case False
  then show ?thesis
    by (simp add: collect_loop.simps [of c endpoint scopes hs resp results w])
next
  case True
  obtain x w1 where a: "authenticate scopes w = (x, w1)"
    by (cases "authenticate scopes w")
  then have t1: "trace w1 = trace w @ [Authenticate scopes]"
    using authenticate_trace [of scopes w] by simp
  have "trace (snd (collect_loop c endpoint scopes hs resp results w)) \<noteq> trace w"
  proof (cases x)
    case (Inl e)
    with True a t1 show ?thesis
      by (simp add: collect_loop.simps [of c endpoint scopes hs resp results w])
  next
    case (Inr auth)
    define hs' where "hs' = AList.update ''Authorization'' (''Bearer '' @ access_token auth) hs"
    define url where "url = host c @ RootPath @ endpoint @ ''?page='' @ the (paginationToken resp)"
    obtain y w2 where g: "get url hs' w1 = (y, w2)"
      by (cases "get url hs' w1")
    then have t2: "trace w2 = trace w1 @ [Get url hs']"
      using get_trace [of url hs' w1] by simp
    show ?thesis
    proof (cases y)
      case (Inl e)
      with True a Inr g t1 t2 show ?thesis
        by (simp add: collect_loop.simps [of c endpoint scopes hs resp results w] hs'_def url_def)
    next
      case r: (Inr resp')
      obtain evs where "trace (snd (collect_loop c endpoint scopes hs' resp' (results @ data resp') w2)) = trace w2 @ evs"
        using collect_loop_trace by blast
      with True a Inr g r t1 t2 show ?thesis
        by (simp add: collect_loop.simps [of c endpoint scopes hs resp results w] hs'_def url_def)
    qed
  qed
  then have "collect_loop c endpoint scopes hs resp results w \<noteq> (Inr results, w)"
    by auto
  with True show ?thesis by simp
qed

lemma pager_next_stops_iff:
  "(pager_next c endpoint scopes (PYielded hs resp) w = (Inr None, PDone, w)) = (\<not> truthy (paginationToken resp))"
  by (simp add: Let_def split: prod.splits sum.splits)

lemma pager_next_continues:
  assumes "truthy (paginationToken resp)" and "auth_replies w = Inr auth # auths"
  shows "trace (snd (snd (pager_next c endpoint scopes (PYielded hs resp) w))) =
           trace w @ [Authenticate scopes,
                      Get (host c @ RootPath @ endpoint @ ''?page='' @ the (paginationToken resp))
                          (AList.update ''Authorization'' (''Bearer '' @ access_token auth) hs)]"
proof -
  define hs' where "hs' = AList.update ''Authorization'' (''Bearer '' @ access_token auth) hs"
  define url where "url = host c @ RootPath @ endpoint @ ''?page='' @ the (paginationToken resp)"
  define w1 where "w1 = w\<lparr>auth_replies := auths, trace := trace w @ [Authenticate scopes]\<rparr>"
  have a: "authenticate scopes w = (Inr auth, w1)"
    using assms(2) by (simp add: authenticate_def w1_def)
  obtain y w2 where g: "get url hs' w1 = (y, w2)"
    by (cases "get url hs' w1")
  then have "trace w2 = trace w @ [Authenticate scopes, Get url hs']"
    using get_trace [of url hs' w1] by (simp add: w1_def)
  with assms(1) a g show ?thesis
    by (cases y) (simp_all add: hs'_def url_def)
qed


section \<open>The continuation token\<close>

text \<open>
  Claim C4, as stated, at a response whose token is the empty string: the response
  carries a \<^verbatim>\<open>paginationToken\<close>, and both iterations stop there without a further
  request, although the script holds another page.
\<close>

theorem empty_token_counterexample:
  "paginationToken (page_of [1::int] (Some '''')) \<noteq> None
   \<and> pager_next example_client ''/engines'' ReadScopes
         (PYielded [(''Authorization'', ''Bearer t1'')] (page_of [1] (Some '''')))
         (scripted [token_of ''t2''] [page_of [2] None])
       = (Inr None, PDone, scripted [token_of ''t2''] [page_of [2] None])
   \<and> collect_loop example_client ''/engines'' ReadScopes
         [(''Authorization'', ''Bearer t1'')] (page_of [1] (Some '''')) [1]
         (scripted [token_of ''t2''] [page_of [2] None])
       = (Inr [1], scripted [token_of ''t2''] [page_of [2] None])"
  by (simp add: collect_loop.simps page_of_def truthy_def)

text \<open>
  Claim C4, amended. After a response, \<^verbatim>\<open>_pager\<close> and \<^verbatim>\<open>_collect\<close> stop,
  without any further call, if and only if the response's \<^verbatim>\<open>paginationToken\<close> is
  absent or the empty string (the values the loop test takes for false). When the token
  is a non-empty string and the authentication succeeds, the next two calls are the
  authentication with the given scopes and a request to the same endpoint with
  \<^verbatim>\<open>?page=<paginationToken>\<close> appended, carrying the fresh access token.
\<close>

theorem pagination_token_contract:
  "(pager_next c endpoint scopes (PYielded hs resp) w = (Inr None, PDone, w)) = (\<not> truthy (paginationToken resp))
   \<and> (collect_loop c endpoint scopes hs resp results w = (Inr results, w)) = (\<not> truthy (paginationToken resp))
   \<and> (truthy (paginationToken resp) \<and> auth_replies w = Inr auth # auths \<longrightarrow>
        trace (snd (snd (pager_next c endpoint scopes (PYielded hs resp) w))) =
          trace w @ [Authenticate scopes,
                     Get (host c @ RootPath @ endpoint @ ''?page='' @ the (paginationToken resp))
                         (AList.update ''Authorization'' (''Bearer '' @ access_token auth) hs)]
        \<and> (\<exists>evs. trace (snd (collect_loop c endpoint scopes hs resp results w)) =
              trace w @ [Authenticate scopes,
                         Get (host c @ RootPath @ endpoint @ ''?page='' @ the (paginationToken resp))
                             (AList.update ''Authorization'' (''Bearer '' @ access_token auth) hs)] @ evs))"
  using pager_next_stops_iff [of c endpoint scopes hs resp w]
    collect_loop_stops_iff [of c endpoint scopes hs resp results w]
    pager_next_continues [of resp w auth auths c endpoint scopes hs]
    collect_loop_continues [of resp w auth auths c endpoint scopes hs results]
  by blast

theorem pagination_token_contract_witness:
  "truthy (paginationToken (page_of [3::int] (Some ''X'')))
   \<and> auth_replies (scripted [token_of ''t2''] [page_of [4, 5::int] None]) = [Inr (token_of ''t2'')]
   \<and> pager_next example_client ''/engines'' ReadScopes
         (PYielded [(''Authorization'', ''Bearer t1'')] (page_of [3::int] (Some ''X'')))
         (scripted [token_of ''t2''] [page_of [4, 5::int] None])
       \<noteq> (Inr None, PDone, scripted [token_of ''t2''] [page_of [4, 5::int] None])
   \<and> trace (snd (snd (pager_next example_client ''/engines'' ReadScopes
         (PYielded [(''Authorization'', ''Bearer t1'')] (page_of [3::int] (Some ''X'')))
         (scripted [token_of ''t2''] [page_of [4, 5::int] None]))))
       = [Authenticate [''code:all''],
          Get ''https://developer.api.autodesk.com/da/us-east/v3/engines?page=X''
              [(''Authorization'', ''Bearer t2'')]]"
  using pagination_token_contract [of example_client "''/engines''" ReadScopes
      "[(''Authorization'', ''Bearer t1'')]" "page_of [3::int] (Some ''X'')"
      "scripted [token_of ''t2''] [page_of [4, 5::int] None]" "[]" "token_of ''t2''" "[]"]
  by (simp add: world_ops Let_def example_client_def RootPath_def ReadScopes_def)

section \<open>Round trips of a collection\<close>

lemma collect_loop_chain:
  assumes "length auths = length rs"
    and "auth_replies w = map Inr auths @ more_auths"
    and "transport_replies w = map Inr rs @ more_replies"
    and "\<forall>r\<in>set (butlast (resp # rs)). truthy (paginationToken r)"
    and "\<not> truthy (paginationToken (last (resp # rs)))"
  shows "collect_loop c endpoint scopes [(''Authorization'', v)] resp results w =
           (Inr (results @ concat (map data rs)),
            w\<lparr>auth_replies := more_auths, transport_replies := more_replies,
              trace := trace w @ later_round_trips c endpoint scopes auths (butlast (resp # rs))\<rparr>)"
  using assms
proof (induction rs arbitrary: auths w resp results v)
  case Nil
  then show ?case
    by (simp add: collect_loop.simps [of c endpoint scopes _ resp results w])
next
  case (Cons r rs)
  from Cons.prems(1) obtain a auths' where auths: "auths = a # auths'" and len: "length auths' = length rs"
    by (cases auths) auto
  define w1 where "w1 = w\<lparr>auth_replies := map Inr auths' @ more_auths, trace := trace w @ [Authenticate scopes]\<rparr>"
  define hs' where "hs' = [(''Authorization'', ''Bearer '' @ access_token a)]"
  define url where "url = host c @ RootPath @ endpoint @ ''?page='' @ the (paginationToken resp)"
  define w2 where "w2 = w1\<lparr>transport_replies := map Inr rs @ more_replies, trace := trace w1 @ [Get url hs']\<rparr>"
  have t: "truthy (paginationToken resp)"
    using Cons.prems(4) by simp
  have a: "authenticate scopes w = (Inr a, w1)"
    using Cons.prems(2) auths by (simp add: authenticate_def w1_def)
  have g: "get url hs' w1 = (Inr r, w2)"
    using Cons.prems(3) by (simp add: get_def transport_def w1_def w2_def)
  have step: "collect_loop c endpoint scopes [(''Authorization'', v)] resp results w =
      collect_loop c endpoint scopes hs' r (results @ data r) w2"
    using t a g
    by (simp add: collect_loop.simps [of c endpoint scopes "[(''Authorization'', v)]" resp results w] hs'_def url_def)
  have ih: "collect_loop c endpoint scopes hs' r (results @ data r) w2 =
      (Inr ((results @ data r) @ concat (map data rs)),
       w2\<lparr>auth_replies := more_auths, transport_replies := more_replies,
          trace := trace w2 @ later_round_trips c endpoint scopes auths' (butlast (r # rs))\<rparr>)"
    unfolding hs'_def
  proof (rule Cons.IH [OF len])
    show "auth_replies w2 = map Inr auths' @ more_auths"
      by (simp add: w2_def w1_def)
    show "transport_replies w2 = map Inr rs @ more_replies"
      by (simp add: w2_def)
    show "\<forall>r\<in>set (butlast (r # rs)). truthy (paginationToken r)"
      using Cons.prems(4) by simp
    show "\<not> truthy (paginationToken (last (r # rs)))"
      using Cons.prems(5) by simp
  qed
  show ?case
    unfolding step ih
    by (simp add: w2_def w1_def auths round_trip_def hs'_def url_def)
qed

lemma later_round_trips_auths:
  "length (filter is_authenticate (later_round_trips c endpoint scopes auths prevs)) = min (length auths) (length prevs)"
  by (induction c endpoint scopes auths prevs rule: later_round_trips.induct) (simp_all add: round_trip_def)

lemma later_round_trips_gets:
  "length (filter is_get (later_round_trips c endpoint scopes auths prevs)) = min (length auths) (length prevs)"
  by (induction c endpoint scopes auths prevs rule: later_round_trips.induct) (simp_all add: round_trip_def)

text \<open>
  Claim C5, as stated, at two pages of which only the second carries no token, the first
  carrying the empty string: \<^verbatim>\<open>_collect\<close> returns the first page alone after one
  authentication and one fetch.
\<close>

theorem empty_token_chain_counterexample:
  "paginationToken (page_of [1::int] (Some '''')) \<noteq> None
   \<and> paginationToken (page_of [2::int] None) = None
   \<and> fst (collect example_client ''/engines'' ReadScopes
        (scripted [token_of ''t1'', token_of ''t2''] [page_of [1::int] (Some ''''), page_of [2] None]))
      = Inr [1]
   \<and> trace (snd (collect example_client ''/engines'' ReadScopes
        (scripted [token_of ''t1'', token_of ''t2''] [page_of [1::int] (Some ''''), page_of [2] None])))
      = [Authenticate [''code:all''],
         Get ''https://developer.api.autodesk.com/da/us-east/v3/engines'' [(''Authorization'', ''Bearer t1'')]]"
  by (simp add: collect_def collect_loop.simps world_ops example_client_def RootPath_def ReadScopes_def)


text \<open>
  Claim C5, amended. When the replies form \<open>k\<close> pages, each of the first \<open>k - 1\<close>
  carrying a non-empty continuation token and the \<open>k\<close>-th carrying none (or an empty
  one), and the authentications succeed, \<^verbatim>\<open>_collect\<close> returns the items of the
  \<open>k\<close> pages concatenated in page order, having made exactly \<open>k\<close> authentications
  and \<open>k\<close> page fetches: before each fetch one authentication with the given scopes,
  whose token that fetch carries. Replies beyond the \<open>k\<close>-th are left untouched.
\<close>

theorem collect_round_trips:
  assumes "pages \<noteq> []"
    and "\<forall>r\<in>set (butlast pages). truthy (paginationToken r)"
    and "\<not> truthy (paginationToken (last pages))"
    and "length auths = length pages"
    and "auth_replies w = map Inr auths @ more_auths"
    and "transport_replies w = map Inr pages @ more_replies"
  shows "collect c endpoint scopes w =
           (Inr (concat (map data pages)),
            w\<lparr>auth_replies := more_auths, transport_replies := more_replies,
              trace := trace w @ round_trips c endpoint scopes auths pages\<rparr>)
         \<and> length (filter is_authenticate (round_trips c endpoint scopes auths pages)) = length pages
         \<and> length (filter is_get (round_trips c endpoint scopes auths pages)) = length pages"
proof -
  from assms(1) obtain p ps where pages: "pages = p # ps"
    by (cases pages) auto
  with assms(4) obtain a auths' where auths: "auths = a # auths'" and len: "length auths' = length ps"
    by (cases auths) auto
  define w1 where "w1 = w\<lparr>auth_replies := map Inr auths' @ more_auths, trace := trace w @ [Authenticate scopes]\<rparr>"
  define hs where "hs = [(''Authorization'', ''Bearer '' @ access_token a)]"
  define url where "url = host c @ RootPath @ endpoint"
  define w2 where "w2 = w1\<lparr>transport_replies := map Inr ps @ more_replies, trace := trace w1 @ [Get url hs]\<rparr>"
  have a: "authenticate scopes w = (Inr a, w1)"
    using assms(5) auths by (simp add: authenticate_def w1_def)
  have g: "get url hs w1 = (Inr p, w2)"
    using assms(6) pages by (simp add: get_def transport_def w1_def w2_def)
  have loop: "collect_loop c endpoint scopes hs p (data p) w2 =
      (Inr (data p @ concat (map data ps)),
       w2\<lparr>auth_replies := more_auths, transport_replies := more_replies,
          trace := trace w2 @ later_round_trips c endpoint scopes auths' (butlast (p # ps))\<rparr>)"
    unfolding hs_def
  proof (rule collect_loop_chain [OF len])
    show "auth_replies w2 = map Inr auths' @ more_auths"
      by (simp add: w2_def w1_def)
    show "transport_replies w2 = map Inr ps @ more_replies"
      by (simp add: w2_def)
    show "\<forall>r\<in>set (butlast (p # ps)). truthy (paginationToken r)"
      using assms(2) pages by simp
    show "\<not> truthy (paginationToken (last (p # ps)))"
      using assms(3) pages by simp
  qed
  have "collect c endpoint scopes w = collect_loop c endpoint scopes hs p (data p) w2"
    using a g by (simp add: collect_def hs_def url_def)
  then have first: "collect c endpoint scopes w =
      (Inr (concat (map data pages)),
       w\<lparr>auth_replies := more_auths, transport_replies := more_replies,
         trace := trace w @ round_trips c endpoint scopes auths pages\<rparr>)"
    unfolding loop
    by (simp add: w2_def w1_def auths pages round_trip_def hs_def url_def)
  have "length (butlast pages) = length auths'"
    using len pages by simp
  then have counts: "length (filter is_authenticate (round_trips c endpoint scopes auths pages)) = length pages"
    "length (filter is_get (round_trips c endpoint scopes auths pages)) = length pages"
    using pages len
    by (simp_all add: auths later_round_trips_auths later_round_trips_gets round_trip_def)
  from first counts show ?thesis by simp
qed

theorem collect_round_trips_witness:
  "collect example_client ''/engines'' ReadScopes (scripted three_tokens chained_responses) =
     (Inr [1, 2, 3, 4, 5],
      \<lparr>auth_replies = [], transport_replies = [],
       trace = [Authenticate [''code:all''],
                Get ''https://developer.api.autodesk.com/da/us-east/v3/engines'' [(''Authorization'', ''Bearer t1'')],
                Authenticate [''code:all''],
                Get ''https://developer.api.autodesk.com/da/us-east/v3/engines?page=W'' [(''Authorization'', ''Bearer t2'')],
                Authenticate [''code:all''],
                Get ''https://developer.api.autodesk.com/da/us-east/v3/engines?page=X'' [(''Authorization'', ''Bearer t3'')]]\<rparr>)"
  using collect_round_trips [of chained_responses three_tokens "scripted three_tokens chained_responses" "[]" "[]"
      example_client "''/engines''" ReadScopes]
  by (simp add: chained_responses_def three_tokens_def scripted_def page_of_def token_of_def truthy_def
        round_trip_def example_client_def RootPath_def ReadScopes_def)

section \<open>The literal round trip\<close>

text \<open>
  Claim C6, as stated: over the literal responses, of which the first carries no token,
  the result is not \<open>[1, 2, 3, 4, 5]\<close>.
\<close>

theorem literal_round_trip_counterexample:
  "fst (collect example_client ''/engines'' ReadScopes (scripted three_tokens literal_responses))
     \<noteq> Inr [1, 2, 3, 4, 5]"
  by (simp add: collect_def collect_loop.simps world_ops three_tokens_def literal_responses_def)

text \<open>
  Claim C6, amended. Over the literal responses \<^verbatim>\<open>_collect\<close> yields \<open>[1, 2]\<close>
  after one authentication and one fetch, and leaves the two later responses unread: the
  first response carries no \<^verbatim>\<open>paginationToken\<close>. When the first response carries a
  token too (the chain of response tokens being \<^verbatim>\<open>"W"\<close>, \<^verbatim>\<open>"X"\<close>, none), the
  result is \<open>[1, 2, 3, 4, 5]\<close>.
\<close>

theorem literal_round_trip:
  "collect c endpoint scopes (scripted (a1 # auths) literal_responses) =
     (Inr [1, 2],
      \<lparr>auth_replies = map Inr auths,
       transport_replies = map Inr (tl literal_responses),
       trace = round_trip scopes (host c @ RootPath @ endpoint) a1\<rparr>)
   \<and> fst (collect c endpoint scopes (scripted [a1, a2, a3] chained_responses)) = Inr [1, 2, 3, 4, 5]"
  by (simp add: collect_def collect_loop.simps world_ops literal_responses_def chained_responses_def round_trip_def)


section \<open>What the builders register and write\<close>

lemma append_first_twice: "append_first s (append_first t cl) = append_first (t @ s) cl"
  by (induction t cl rule: append_first.induct) simp_all

lemma append_first_empty: "append_first [] cl = cl"
  by (induction "[]::string" cl rule: append_first.induct) simp_all

lemma set_parameter_commandLine [simp]: "commandLine (set_parameter n entry config) = commandLine config"
  by (simp add: set_parameter_def)

lemma set_parameter_cfg_id [simp]: "cfg_id (set_parameter n entry config) = cfg_id config"
  by (simp add: set_parameter_def)

lemma set_parameter_parameters [simp]:
  "parameters (set_parameter n entry config) =
     (if n = ''__proto__'' then parameters config else (parameters config)(n \<mapsto> entry))"
  by (simp add: set_parameter_def)

lemma set_parameter_commandLine_update [simp]:
  "set_parameter n entry (config\<lparr>commandLine := cl\<rparr>) = (set_parameter n entry config)\<lparr>commandLine := cl\<rparr>"
  by (simp add: set_parameter_def)

lemma add_outputs_commandLine: "commandLine (add_outputs outputs config) = commandLine config"
  by (induction outputs arbitrary: config) simp_all

lemma add_outputs_cfg_id: "cfg_id (add_outputs outputs config) = cfg_id config"
  by (induction outputs arbitrary: config) simp_all

lemma add_inputs_cfg_id: "cfg_id (add_inputs inputs config) = cfg_id config"
  by (induction inputs arbitrary: config) simp_all

lemma add_inputs_commandLine:
  "commandLine (add_inputs inputs config) =
     append_first (concat (map (\<lambda>i. '' '' @ arg_placeholder i) inputs)) (commandLine config)"
  by (induction inputs arbitrary: config)
     (simp_all add: append_first_empty append_first_twice arg_placeholder_def)

lemma add_outputs_other:
  "n \<notin> name ` set outputs \<Longrightarrow> parameters (add_outputs outputs config) n = parameters config n"
  by (induction outputs arbitrary: config) simp_all

lemma add_outputs_last:
  "name out \<notin> name ` set after \<Longrightarrow> name out \<noteq> ''__proto__'' \<Longrightarrow>
   parameters (add_outputs (before @ out # after) config) (name out) = Some (output_parameter out)"
  by (induction before arbitrary: config) (simp_all add: add_outputs_other)


lemma add_outputs_proto:
  "parameters (add_outputs outputs config) ''__proto__'' = parameters config ''__proto__''"
  by (induction outputs arbitrary: config) simp_all

lemma add_inputs_proto:
  "parameters (add_inputs inputs config) ''__proto__'' = parameters config ''__proto__''"
  by (induction inputs arbitrary: config) simp_all







lemma join_tokens_Cons: "join_tokens (t # ts) = t @ concat (map (\<lambda>u. '' '' @ u) ts)"
  by (induction ts arbitrary: t) simp_all

lemma add_inputs_parameters_cong:
  "parameters c1 = parameters c2 \<Longrightarrow> parameters (add_inputs inputs c1) = parameters (add_inputs inputs c2)"
  by (induction inputs arbitrary: c1 c2) simp_all

lemma add_outputs_parameters_cong:
  "parameters c1 = parameters c2 \<Longrightarrow> parameters (add_outputs outputs c1) = parameters (add_outputs outputs c2)"
  by (induction outputs arbitrary: c1 c2) simp_all


lemma inventor_parameters:
  "parameters config0 = Map.empty \<Longrightarrow>
   parameters (inventorActivityConfig activityId descr ownerId bundleName bundleAlias eng inputs outputs) =
   parameters (add_outputs outputs (add_inputs inputs config0))"
  unfolding inventorActivityConfig_def Let_def
  by (cases inputs) (auto intro!: add_outputs_parameters_cong add_inputs_parameters_cong)

lemma revit_parameters:
  "parameters config0 = Map.empty \<Longrightarrow>
   parameters (revitActivityConfig activityId descr ownerId bundleName bundleAlias eng inputs outputs) =
   parameters (add_outputs outputs (add_inputs inputs config0))"
  unfolding revitActivityConfig_def Let_def
  by (cases inputs) (auto intro!: add_outputs_parameters_cong add_inputs_parameters_cong)

lemma autocad_parameters:
  "parameters config0 = Map.empty \<Longrightarrow>
   parameters (autocadActivityConfig activityId descr ownerId bundleName bundleAlias eng inputs outputs script) =
   parameters (add_outputs outputs (add_inputs inputs config0))"
  unfolding autocadActivityConfig_def Let_def
  by (cases inputs) (auto intro!: add_outputs_parameters_cong add_inputs_parameters_cong)

lemma js_3dsmax_throws:
  "1 < length inputs \<Longrightarrow>
   js_3dsmaxActivityConfig activityId descr ownerId bundleName bundleAlias eng inputs outputs script =
     Inl (Thrown ''3dsMax engine only supports single input file.'')"
  by (simp add: js_3dsmaxActivityConfig_def)

lemma js_3dsmax_returns:
  "length inputs \<le> 1 \<Longrightarrow>
   \<exists>config. js_3dsmaxActivityConfig activityId descr ownerId bundleName bundleAlias eng inputs outputs script = Inr config"
  by (simp add: js_3dsmaxActivityConfig_def Let_def)

lemma js_3dsmax_parameters:
  assumes "js_3dsmaxActivityConfig activityId descr ownerId bundleName bundleAlias eng inputs outputs script = Inr config"
    and "parameters config0 = Map.empty"
  shows "length inputs \<le> 1 \<and> parameters config = parameters (add_outputs outputs (add_inputs inputs config0))"
proof (cases inputs)
  case Nil
  with assms show ?thesis
    by (auto simp: js_3dsmaxActivityConfig_def Let_def intro!: add_outputs_parameters_cong)
next
  case (Cons inp rest)
  with assms(1) have "rest = []"
    by (cases rest) (simp_all add: js_3dsmaxActivityConfig_def)
  with Cons assms show ?thesis
    by (auto simp: js_3dsmaxActivityConfig_def Let_def intro!: add_outputs_parameters_cong)
qed


section \<open>The command line\<close>

text \<open>
  Claim C7, as stated, at an AutoCAD activity with one input. The command line is not the
  array of the tokens: it is an array of one string. And a script that is present but
  empty adds no script switch.
\<close>

theorem command_line_counterexample:
  "commandLine (autocadActivityConfig (Some ''Act'') ''d'' ''owner'' ''Bundle'' ''prod'' ''Autodesk.AutoCAD+23''
        [descriptor_named ''in1''] [] None)
     \<noteq> CmdArray [autocad_base ''Bundle'', ''/i'', arg_placeholder (descriptor_named ''in1'')]
   \<and> commandLine (autocadActivityConfig (Some ''Act'') ''d'' ''owner'' ''Bundle'' ''prod'' ''Autodesk.AutoCAD+23''
        [descriptor_named ''in1''] [] None)
     = CmdArray [''$(engine.path)'' @ [CHR 0x5C] @ ''accoreconsole.exe /al $(appbundles[Bundle].path) /i $(args[in1].path)'']
   \<and> commandLine (autocadActivityConfig (Some ''Act'') ''d'' ''owner'' ''Bundle'' ''prod'' ''Autodesk.AutoCAD+23''
        [descriptor_named ''in1''] [] (Some ''''))
     = CmdArray [''$(engine.path)'' @ [CHR 0x5C] @ ''accoreconsole.exe /al $(appbundles[Bundle].path) /i $(args[in1].path)'']"
  by (simp add: autocadActivityConfig_def Let_def descriptor_named_def truthy_def autocad_base_def arg_placeholder_def)

text \<open>
  Claim C7, amended. For the AutoCAD, Revit and Inventor builders with at least one input,
  \<^verbatim>\<open>commandLine\<close> is an array of one string, and that string is the fixed token
  sequence written with single spaces in between: the base executable invocation, the
  input switch \<^verbatim>\<open>/i\<close>, one \<^verbatim>\<open>$(args[<name>].path)\<close> placeholder per input in
  the order of the input list and, for AutoCAD only and when the script is a non-empty
  string, the script switch \<^verbatim>\<open>/s $(settings[script].path)\<close> last.
\<close>

theorem command_line_token_order:
  assumes "inputs \<noteq> []"
  shows "commandLine (autocadActivityConfig activityId descr ownerId bundleName bundleAlias eng inputs outputs script) =
           CmdArray [join_tokens (autocad_base bundleName # ''/i'' # map arg_placeholder inputs
                                  @ (if truthy script then [''/s $(settings[script].path)''] else []))]
       \<and> commandLine (revitActivityConfig activityId descr ownerId bundleName bundleAlias eng inputs outputs) =
           CmdArray [join_tokens (revit_base bundleName # ''/i'' # map arg_placeholder inputs)]
       \<and> commandLine (inventorActivityConfig activityId descr ownerId bundleName bundleAlias eng inputs outputs) =
           CmdArray [join_tokens (inventor_base bundleName # ''/i'' # map arg_placeholder inputs)]"
  using assms
  by (simp add: autocadActivityConfig_def revitActivityConfig_def inventorActivityConfig_def Let_def
        add_outputs_commandLine add_inputs_commandLine join_tokens_Cons comp_def
        autocad_base_def revit_base_def inventor_base_def)

theorem command_line_token_order_witness:
  "[descriptor_named ''in1'', descriptor_named ''in2''] \<noteq> []
   \<and> commandLine (autocadActivityConfig (Some ''Act'') ''d'' ''owner'' ''Bundle'' ''prod'' ''Autodesk.AutoCAD+23''
        [descriptor_named ''in1'', descriptor_named ''in2''] [descriptor_named ''out''] (Some ''script'')) =
      CmdArray [''$(engine.path)'' @ [CHR 0x5C] @
        ''accoreconsole.exe /al $(appbundles[Bundle].path) /i $(args[in1].path) $(args[in2].path) /s $(settings[script].path)'']
   \<and> commandLine (revitActivityConfig (Some ''Act'') ''d'' ''owner'' ''Bundle'' ''prod'' ''Autodesk.Revit+2019''
        [descriptor_named ''in1'', descriptor_named ''in2''] [descriptor_named ''out'']) =
      CmdArray [''$(engine.path)'' @ [CHR 0x5C] @
        ''revitcoreconsole.exe /al $(appbundles[Bundle].path) /i $(args[in1].path) $(args[in2].path)'']"
  using command_line_token_order [of "[descriptor_named ''in1'', descriptor_named ''in2'']" "Some ''Act''" "''d''" "''owner''"
      "''Bundle''" "''prod''" "''Autodesk.AutoCAD+23''" "[descriptor_named ''out'']" "Some ''script''"]
    command_line_token_order [of "[descriptor_named ''in1'', descriptor_named ''in2'']" "Some ''Act''" "''d''" "''owner''"
      "''Bundle''" "''prod''" "''Autodesk.Revit+2019''" "[descriptor_named ''out'']" "Some ''script''"]
  by (simp add: autocad_base_def revit_base_def arg_placeholder_def descriptor_named_def truthy_def)

section \<open>The parameter mapping\<close>





text \<open>
  Claim C10, as stated, at two inputs of the 3dsMax builder, the first sharing its name
  with the output: the builder throws. And at an input and an output of the Revit builder
  that share the name \<^verbatim>\<open>__proto__\<close>: no error, and no entry for that name either.
\<close>

theorem shared_name_counterexample:
  "js_3dsmaxActivityConfig (Some ''Act'') ''d'' ''owner'' ''Bundle'' ''prod'' ''Autodesk.3dsMax+2019''
       [descriptor_named ''a'', descriptor_named ''b''] [descriptor_named ''a''] None
     = Inl (Thrown ''3dsMax engine only supports single input file.'')
   \<and> parameters (revitActivityConfig (Some ''Act'') ''d'' ''owner'' ''Bundle'' ''prod'' ''Autodesk.Revit+2019''
        [descriptor_named ''__proto__''] [descriptor_named ''__proto__'']) ''__proto__'' = None"
  by (simp add: js_3dsmaxActivityConfig_def revitActivityConfig_def Let_def descriptor_named_def)

text \<open>
  Claim C10, amended. When an input and an output share a name other than
  \<^verbatim>\<open>__proto__\<close>, the Inventor, Revit and AutoCAD builders, and the 3dsMax builder when
  it is given at most one input, raise no error, and the mapping's entry for that name is
  the \<^verbatim>\<open>put\<close> descriptor of the output (of the last output of that name, should
  several outputs share it): outputs are registered after inputs and overwrite them. The
  3dsMax builder given more than one input throws, whatever the names.
\<close>

theorem shared_name_output_wins:
  assumes "outputs = before @ out # after"
    and "name out \<notin> name ` set after"
    and "inp \<in> set inputs"
    and "name inp = name out"
    and "name out \<noteq> ''__proto__''"
  shows "parameters (inventorActivityConfig activityId descr ownerId bundleName bundleAlias eng inputs outputs) (name inp)
           = Some (output_parameter out)
       \<and> parameters (revitActivityConfig activityId descr ownerId bundleName bundleAlias eng inputs outputs) (name inp)
           = Some (output_parameter out)
       \<and> parameters (autocadActivityConfig activityId descr ownerId bundleName bundleAlias eng inputs outputs script) (name inp)
           = Some (output_parameter out)
       \<and> (length inputs \<le> 1 \<longrightarrow>
            map_sum id (\<lambda>config. parameters config (name inp))
              (js_3dsmaxActivityConfig activityId descr ownerId bundleName bundleAlias eng inputs outputs script)
            = Inr (Some (output_parameter out)))
       \<and> (1 < length inputs \<longrightarrow>
            js_3dsmaxActivityConfig activityId descr ownerId bundleName bundleAlias eng inputs outputs script
            = Inl (Thrown ''3dsMax engine only supports single input file.''))
       \<and> verb (output_parameter out) = ''put''"
proof -
  define config0 where "config0 = revitActivityConfig None [] [] [] [] [] [] []"
  have e: "parameters config0 = Map.empty"
    by (simp add: config0_def revitActivityConfig_def)
  have last: "parameters (add_outputs outputs (add_inputs inputs config0)) (name inp) = Some (output_parameter out)"
    using add_outputs_last [OF assms(2,5), of before "add_inputs inputs config0"] assms(1,4) by simp
  have one: "map_sum id (\<lambda>config. parameters config (name inp))
        (js_3dsmaxActivityConfig activityId descr ownerId bundleName bundleAlias eng inputs outputs script)
      = Inr (Some (output_parameter out))" if "length inputs \<le> 1"
  proof -
    from js_3dsmax_returns [OF that] obtain config where
      c: "js_3dsmaxActivityConfig activityId descr ownerId bundleName bundleAlias eng inputs outputs script = Inr config"
      by blast
    with js_3dsmax_parameters [OF c e] last show ?thesis by simp
  qed
  have more: "js_3dsmaxActivityConfig activityId descr ownerId bundleName bundleAlias eng inputs outputs script
      = Inl (Thrown ''3dsMax engine only supports single input file.'')" if "1 < length inputs"
    using that by (rule js_3dsmax_throws)
  from last one more show ?thesis
    by (simp add: inventor_parameters [OF e] revit_parameters [OF e] autocad_parameters [OF e]
          output_parameter_def)
qed

theorem shared_name_output_wins_witness:
  "''file'' \<noteq> ''__proto__''
   \<and> length [\<lparr>name = ''file'', description = Some ''source'', localName = None\<rparr>] \<le> 1
   \<and> parameters (revitActivityConfig (Some ''Act'') ''d'' ''owner'' ''Bundle'' ''prod'' ''Autodesk.Revit+2019''
       [\<lparr>name = ''file'', description = Some ''source'', localName = None\<rparr>]
       [\<lparr>name = ''file'', description = Some ''result'', localName = Some ''out.rvt''\<rparr>]) ''file''
     = Some \<lparr>verb = ''put'', param_description = Some ''result'', param_localName = Some ''out.rvt''\<rparr>
   \<and> map_sum id (\<lambda>config. parameters config ''file'')
       (js_3dsmaxActivityConfig (Some ''Act'') ''d'' ''owner'' ''Bundle'' ''prod'' ''Autodesk.3dsMax+2019''
         [\<lparr>name = ''file'', description = Some ''source'', localName = None\<rparr>]
         [\<lparr>name = ''file'', description = Some ''result'', localName = Some ''out.rvt''\<rparr>] None)
     = Inr (Some \<lparr>verb = ''put'', param_description = Some ''result'', param_localName = Some ''out.rvt''\<rparr>)"
  using shared_name_output_wins [of
      "[\<lparr>name = ''file'', description = Some ''result'', localName = Some ''out.rvt''\<rparr>]" "[]"
      "\<lparr>name = ''file'', description = Some ''result'', localName = Some ''out.rvt''\<rparr>" "[]"
      "\<lparr>name = ''file'', description = Some ''source'', localName = None\<rparr>"
      "[\<lparr>name = ''file'', description = Some ''source'', localName = None\<rparr>]"
      "Some ''Act''" "''d''" "''owner''" "''Bundle''" "''prod''" "''Autodesk.Revit+2019''" None]
    shared_name_output_wins [of
      "[\<lparr>name = ''file'', description = Some ''result'', localName = Some ''out.rvt''\<rparr>]" "[]"
      "\<lparr>name = ''file'', description = Some ''result'', localName = Some ''out.rvt''\<rparr>" "[]"
      "\<lparr>name = ''file'', description = Some ''source'', localName = None\<rparr>"
      "[\<lparr>name = ''file'', description = Some ''source'', localName = None\<rparr>]"
      "Some ''Act''" "''d''" "''owner''" "''Bundle''" "''prod''" "''Autodesk.3dsMax+2019''" None]
  by (simp add: output_parameter_def truthy_def js_3dsmaxActivityConfig_def Let_def)

section \<open>The identifier of an updated activity\<close>

text \<open>
  Claim C9 on the code. With an identifier the builders give the descriptor an
  \<^verbatim>\<open>id\<close> property holding it (the Inventor builder when the identifier is not the
  empty string). At \<^verbatim>\<open>updateActivity\<close>, which supplies \<^verbatim>\<open>null\<close>, the Revit,
  AutoCAD and 3dsMax builders still give the descriptor an \<^verbatim>\<open>id\<close> property, with
  the value \<^verbatim>\<open>null\<close>, and that descriptor is what is posted. Only the Inventor
  builder leaves the property out.
\<close>

theorem update_posts_null_id:
  "cfg_id (revitActivityConfig (Some ident) descr ownerId bundleName bundleAlias eng inputs outputs) = Present (Some ident)
   \<and> cfg_id (autocadActivityConfig (Some ident) descr ownerId bundleName bundleAlias eng inputs outputs script)
       = Present (Some ident)
   \<and> cfg_id (inventorActivityConfig (Some ident) descr ownerId bundleName bundleAlias eng inputs outputs)
       = (if ident = [] then Absent else Present (Some ident))
   \<and> cfg_id (revitActivityConfig None descr ownerId bundleName bundleAlias eng inputs outputs) = Present None
   \<and> cfg_id (autocadActivityConfig None descr ownerId bundleName bundleAlias eng inputs outputs script) = Present None
   \<and> map_sum id cfg_id (js_3dsmaxActivityConfig None descr ownerId bundleName bundleAlias eng [] outputs script)
       = Inr (Present None)
   \<and> cfg_id (inventorActivityConfig None descr ownerId bundleName bundleAlias eng inputs outputs) = Absent
   \<and> trace (snd (updateActivity engine_name_segment example_client ''MyActivity'' ''d'' ''Bundle'' ''prod''
        ''Autodesk.Revit+2019'' [] [] None (scripted [token_of ''t''] [''reply''])))
     = [Authenticate [''code:all''],
        Post ''https://developer.api.autodesk.com/da/us-east/v3/activities/MyActivity/versions''
          (Some \<lparr>cfg_id = Present None,
                 commandLine = CmdArray [''$(engine.path)'' @ [CHR 0x5C] @ ''revitcoreconsole.exe /al $(appbundles[Bundle].path)''],
                 parameters = Map.empty,
                 parameters_prototype = None,
                 cfg_description = ''d'',
                 cfg_engine = ''Autodesk.Revit+2019'',
                 appbundles = [''owner.Bundle+prod''],
                 settings_script = None\<rparr>)
          [(''Authorization'', ''Bearer t'')]]"
  by (simp add: revitActivityConfig_def autocadActivityConfig_def js_3dsmaxActivityConfig_def
        inventorActivityConfig_def Let_def add_outputs_cfg_id add_inputs_cfg_id truthy_def
        updateActivity_def engine_name_segment_def example_client_def
        scripted_def token_of_def authenticate_def post_def transport_def RootPath_def ReadScopes_def)

section \<open>Engines the switch does not know\<close>

text \<open>
  Claim C2 on the code: when the name of the engine is none of the four, neither
  operation fails. Each authenticates and posts the \<^verbatim>\<open>undefined\<close> configuration
  to the activities endpoint, and returns the reply.
\<close>

theorem unrecognized_engine_is_posted:
  assumes "uri_name eng \<notin> {''AutoCAD'', ''3dsMax'', ''Revit'', ''Inventor''}"
  shows "createActivity uri_name c activity_id descr bundleName bundleAlias eng inputs outputs script w =
           (case authenticate ReadScopes w of
              (Inl e, w1) \<Rightarrow> (Inl e, w1)
            | (Inr auth, w1) \<Rightarrow>
                post (host c @ RootPath @ ''/activities'') None
                  [(''Authorization'', ''Bearer '' @ access_token auth)] w1)
       \<and> updateActivity uri_name c activity_id descr bundleName bundleAlias eng inputs outputs script w =
           (case authenticate ReadScopes w of
              (Inl e, w1) \<Rightarrow> (Inl e, w1)
            | (Inr auth, w1) \<Rightarrow>
                post (host c @ RootPath @ ''/activities/'' @ activity_id @ ''/versions'') None
                  [(''Authorization'', ''Bearer '' @ access_token auth)] w1)"
  using assms
  by (simp add: createActivity_def updateActivity_def Let_def split: prod.splits sum.splits)

theorem unrecognized_engine_is_posted_witness:
  "engine_name_segment ''Autodesk.Maya+2020'' \<notin> {''AutoCAD'', ''3dsMax'', ''Revit'', ''Inventor''}
   \<and> createActivity engine_name_segment example_client ''MyActivity'' ''d'' ''Bundle'' ''prod'' ''Autodesk.Maya+2020''
       [] [] None (scripted [token_of ''t''] [''reply''])
     = (Inr ''reply'',
        \<lparr>auth_replies = [], transport_replies = [],
         trace = [Authenticate [''code:all''],
                  Post ''https://developer.api.autodesk.com/da/us-east/v3/activities'' None
                    [(''Authorization'', ''Bearer t'')]]\<rparr>)
   \<and> updateActivity engine_name_segment example_client ''MyActivity'' ''d'' ''Bundle'' ''prod'' ''Autodesk.Maya+2020''
       [] [] None (scripted [token_of ''t''] [''reply''])
     = (Inr ''reply'',
        \<lparr>auth_replies = [], transport_replies = [],
         trace = [Authenticate [''code:all''],
                  Post ''https://developer.api.autodesk.com/da/us-east/v3/activities/MyActivity/versions'' None
                    [(''Authorization'', ''Bearer t'')]]\<rparr>)"
  using unrecognized_engine_is_posted [of engine_name_segment "''Autodesk.Maya+2020''" example_client
      "''MyActivity''" "''d''" "''Bundle''" "''prod''" "[]" "[]" None "scripted [token_of ''t''] [''reply'']"]
  by (simp add: engine_name_segment_def example_client_def scripted_def token_of_def authenticate_def
        post_def transport_def RootPath_def ReadScopes_def)

section \<open>More than one input for 3dsMax\<close>

text \<open>
  Claim C3, as stated, at a 3dsMax activity with two inputs: the builder's error comes
  after the authentication call, which is in the trace, and when the authentication
  fails the operation fails with that failure instead.
\<close>

theorem validation_after_authentication_counterexample:
  "createActivity engine_name_segment example_client ''MyActivity'' ''d'' ''Bundle'' ''prod'' ''Autodesk.3dsMax+2019''
       [descriptor_named ''in1'', descriptor_named ''in2''] [] None (scripted [token_of ''t''] [''reply''])
     = (Inl (Thrown ''3dsMax engine only supports single input file.''),
        \<lparr>auth_replies = [], transport_replies = [Inr ''reply''],
         trace = [Authenticate [''code:all'']]\<rparr>)
   \<and> fst (createActivity engine_name_segment example_client ''MyActivity'' ''d'' ''Bundle'' ''prod'' ''Autodesk.3dsMax+2019''
       [descriptor_named ''in1'', descriptor_named ''in2''] [] None (scripted [] [''reply'']))
     = Inl AuthenticationFailure"
  by (simp add: createActivity_def js_3dsmaxActivityConfig_def engine_name_segment_def example_client_def
        scripted_def token_of_def authenticate_def post_def transport_def RootPath_def ReadScopes_def
        descriptor_named_def)

text \<open>
  Claim C3, amended. For every \<^verbatim>\<open>createActivity\<close> call with a 3dsMax engine and
  more than one input, the builder throws before it returns a descriptor, and nothing is
  posted: the one call the operation makes is the authentication that opens it. The
  operation fails with the builder's error when that authentication succeeds, and with the
  authentication's own failure otherwise.
\<close>

theorem too_many_inputs_rejected:
  assumes "uri_name eng = ''3dsMax''" and "1 < length inputs"
  shows "js_3dsmaxActivityConfig activityId descr ownerId bundleName bundleAlias eng inputs outputs script =
           Inl (Thrown ''3dsMax engine only supports single input file.'')
       \<and> createActivity uri_name c activity_id descr bundleName bundleAlias eng inputs outputs script w =
           (case authenticate ReadScopes w of
              (Inl e, w1) \<Rightarrow> (Inl e, w1)
            | (Inr auth, w1) \<Rightarrow> (Inl (Thrown ''3dsMax engine only supports single input file.''), w1))
       \<and> trace (snd (createActivity uri_name c activity_id descr bundleName bundleAlias eng inputs outputs script w)) =
           trace w @ [Authenticate ReadScopes]"
proof -
  have thrown: "js_3dsmaxActivityConfig aid descr own bundleName bundleAlias eng inputs outputs script =
      Inl (Thrown ''3dsMax engine only supports single input file.'')" for aid own
    using assms(2) by (rule js_3dsmax_throws)
  have run: "createActivity uri_name c activity_id descr bundleName bundleAlias eng inputs outputs script w =
      (case authenticate ReadScopes w of
         (Inl e, w1) \<Rightarrow> (Inl e, w1)
       | (Inr auth, w1) \<Rightarrow> (Inl (Thrown ''3dsMax engine only supports single input file.''), w1))"
    using assms(1) by (simp add: createActivity_def Let_def thrown split: prod.splits sum.splits)
  have "trace (snd (createActivity uri_name c activity_id descr bundleName bundleAlias eng inputs outputs script w)) =
      trace (snd (authenticate ReadScopes w))"
    unfolding run by (simp split: prod.splits sum.splits)
  then have "trace (snd (createActivity uri_name c activity_id descr bundleName bundleAlias eng inputs outputs script w)) =
      trace w @ [Authenticate ReadScopes]"
    by (simp add: authenticate_trace)
  with thrown run show ?thesis by simp
qed

theorem too_many_inputs_rejected_witness:
  "engine_name_segment ''Autodesk.3dsMax+2019'' = ''3dsMax''
   \<and> 1 < length [descriptor_named ''in1'', descriptor_named ''in2'']
   \<and> createActivity engine_name_segment example_client ''MyActivity'' ''d'' ''Bundle'' ''prod'' ''Autodesk.3dsMax+2019''
       [descriptor_named ''in1'', descriptor_named ''in2''] [] None (scripted [token_of ''t''] [''reply''])
     = (Inl (Thrown ''3dsMax engine only supports single input file.''),
        \<lparr>auth_replies = [], transport_replies = [Inr ''reply''],
         trace = [Authenticate [''code:all'']]\<rparr>)"
  using too_many_inputs_rejected [of engine_name_segment "''Autodesk.3dsMax+2019''"
      "[descriptor_named ''in1'', descriptor_named ''in2'']" None "''d''" "''owner''" "''Bundle''" "''prod''" "[]" None
      example_client "''MyActivity''" "scripted [token_of ''t''] [''reply'']"]
  by (simp add: engine_name_segment_def scripted_def token_of_def authenticate_def ReadScopes_def)

end
